theory Spec2Isabelle
  imports Complex_Main "HOL-Library.AList"
begin

section \<open>JavaScript values\<close>

text \<open>
  The backtest client and the backtest page exchange JSON with the server and catch
  whatever the transport throws, so both are modelled over one type of run-time values.
  A number is a finite value (every finite double is a rational), \<open>NaN\<close> or an
  infinity. An object is the list of its own properties in insertion order; \<open>JError\<close>
  is an object that is an instance of \<open>Error\<close>. Strings are lists of 8-bit characters,
  read as the code units 0 to 255.
\<close>

datatype number = Num rat | NaN | PosInfinity | NegInfinity

datatype jsval =
    JUndefined
  | JNull
  | JBool bool
  | JNumber number
  | JString string
  | JArray "jsval list"
  | JObject "(string \<times> jsval) list"
  | JError "(string \<times> jsval) list"

text \<open>A promise that has settled: \<open>Inl\<close> is the rejection reason, \<open>Inr\<close> the value.\<close>

type_synonym 'a settled = "jsval + 'a"

text \<open>The truthiness test behind \<open>if (v)\<close>, \<open>v || w\<close> and \<open>v && w\<close>.\<close>

fun truthy :: "jsval \<Rightarrow> bool" where
  "truthy JUndefined = False"
| "truthy JNull = False"
| "truthy (JBool b) = b"
| "truthy (JNumber n) = (n \<noteq> Num 0 \<and> n \<noteq> NaN)"
| "truthy (JString s) = (s \<noteq> [])"
| "truthy (JArray xs) = True"
| "truthy (JObject kvs) = True"
| "truthy (JError kvs) = True"

fun typeof :: "jsval \<Rightarrow> string" where
  "typeof JUndefined = ''undefined''"
| "typeof JNull = ''object''"
| "typeof (JBool b) = ''boolean''"
| "typeof (JNumber n) = ''number''"
| "typeof (JString s) = ''string''"
| "typeof (JArray xs) = ''object''"
| "typeof (JObject kvs) = ''object''"
| "typeof (JError kvs) = ''object''"

text \<open>
  The \<open>TypeError\<close> the engine raises; its message text differs between engines and no
  property below depends on it.
\<close>

definition TypeError :: "string \<Rightarrow> jsval" where
  "TypeError msg = JError [(''message'', JString msg)]"

text \<open>
  Reading a property \<open>v.k\<close>, for the names this program reads (none of them an array
  index, \<open>length\<close> or a method of a built-in prototype): it throws on \<open>null\<close> and
  \<open>undefined\<close>, finds nothing on the other primitives and on arrays, and looks the name
  up in an object. An \<open>Error\<close> without a message of its own inherits the empty one.
\<close>

fun get_prop :: "jsval \<Rightarrow> string \<Rightarrow> jsval settled" where
  "get_prop JUndefined k = Inl (TypeError ''Cannot read properties of undefined'')"
| "get_prop JNull k = Inl (TypeError ''Cannot read properties of null'')"
| "get_prop (JObject kvs) k = Inr (case map_of kvs k of Some v \<Rightarrow> v | None \<Rightarrow> JUndefined)"
| "get_prop (JError kvs) k =
     Inr (case map_of kvs k of
            Some v \<Rightarrow> v
          | None \<Rightarrow> if k = ''message'' then JString [] else JUndefined)"
| "get_prop v k = Inr JUndefined"

text \<open>Optional chaining \<open>v?.k\<close>.\<close>

definition opt_chain :: "jsval \<Rightarrow> string \<Rightarrow> jsval settled" where
  "opt_chain v k = (if v = JUndefined \<or> v = JNull then Inr JUndefined else get_prop v k)"

text \<open>
  The operator \<open>k in v\<close>, again for a name that is no index and not \<open>length\<close>: it throws
  when \<open>v\<close> is not an object.
\<close>

fun in_op :: "string \<Rightarrow> jsval \<Rightarrow> bool settled" where
  "in_op k (JObject kvs) = Inr (map_of kvs k \<noteq> None)"
| "in_op k (JError kvs) = Inr (map_of kvs k \<noteq> None)"
| "in_op k (JArray xs) = Inr False"
| "in_op k v = Inl (TypeError ''Cannot use the in operator'')"

text \<open>Strict equality \<open>v === n\<close> with a finite numeric literal \<open>n\<close>.\<close>

fun strict_eq_num :: "jsval \<Rightarrow> rat \<Rightarrow> bool" where
  "strict_eq_num (JNumber (Num m)) n = (m = n)"
| "strict_eq_num v n = False"

text \<open>
  \<open>xs.map(f)\<close> for a function \<open>f\<close> that does not throw: on anything but an array the
  method is missing (JSON data carries no functions) and the call throws.
\<close>

fun js_map :: "(jsval \<Rightarrow> jsval) \<Rightarrow> jsval \<Rightarrow> jsval settled" where
  "js_map f (JArray xs) = Inr (JArray (map f xs))"
| "js_map f JUndefined = Inl (TypeError ''Cannot read properties of undefined'')"
| "js_map f JNull = Inl (TypeError ''Cannot read properties of null'')"
| "js_map f v = Inl (TypeError ''map is not a function'')"

text \<open>
  Assigning \<open>obj[k] = v\<close>: an existing property keeps its place, a new one goes last.
\<close>

definition assign :: "string \<Rightarrow> jsval \<Rightarrow> (string \<times> jsval) list \<Rightarrow> (string \<times> jsval) list" where
  "assign k v kvs = AList.update k v kvs"

text \<open>
  \<open>String.prototype.trim\<close>: the white space among the code units 0 to 255 is tab, line
  feed, vertical tab, form feed, carriage return, space and the no-break space.
\<close>

definition is_space :: "char \<Rightarrow> bool" where
  "is_space c = ((of_char c :: nat) \<in> {9, 10, 11, 12, 13, 32, 160})"

definition trim :: "string \<Rightarrow> string" where
  "trim s = rev (dropWhile is_space (rev (dropWhile is_space s)))"

text \<open>
  \<open>encodeURIComponent\<close>: letters, digits and \<open>- _ . ! ~ * ' ( )\<close> stay, every other
  code unit is written as the percent-escaped bytes of its UTF-8 encoding.
\<close>

definition unreserved :: "char \<Rightarrow> bool" where
  "unreserved c = (c \<in> set (''ABCDEFGHIJKLMNOPQRSTUVWXYZabcdefghijklmnopqrstuvwxyz'' @
                            ''0123456789-_.!~*()'' @ [CHR 0x27]))"

definition percent :: "nat \<Rightarrow> string" where
  "percent b = [CHR ''%'', ''0123456789ABCDEF'' ! (b div 16), ''0123456789ABCDEF'' ! (b mod 16)]"

definition encodeChar :: "char \<Rightarrow> string" where
  "encodeChar c =
     (let n = (of_char c :: nat) in
      if unreserved c then [c]
      else if n < 128 then percent n
      else percent (192 + n div 64) @ percent (128 + n mod 64))"

definition encodeURIComponent :: "string \<Rightarrow> string" where
  "encodeURIComponent s = concat (map encodeChar s)"

section \<open>Key conversion\<close>

text \<open>
  Modelled from the spec: \<open>toCamelCase\<close> of \<open>./utils\<close> is not among the sources. The
  spec says that field names are converted from the wire format to camel case at the
  client boundary. \<open>upper\<close> is the upper-case form of a letter of a key.
\<close>

definition upper :: "char \<Rightarrow> char" where
  "upper c =
     (case map_of (zip ''abcdefghijklmnopqrstuvwxyz'' ''ABCDEFGHIJKLMNOPQRSTUVWXYZ'') c of
        Some u \<Rightarrow> u
      | None \<Rightarrow> c)"

text \<open>
  Modelled from the spec: the camel-case form of one key. An underscore is dropped and
  the character after it is written in upper case, except at the start of the key.
\<close>

fun camel :: "bool \<Rightarrow> bool \<Rightarrow> string \<Rightarrow> string" where
  "camel started up [] = []"
| "camel started up (c # cs) =
     (if c = CHR ''_'' then camel started started cs
      else (if up then upper c else c) # camel True False cs)"

definition camelKey :: "string \<Rightarrow> string" where
  "camelKey k = camel False False k"

text \<open>
  Modelled from the spec: the properties of a converted object, assigned one by one under
  their new keys. Two keys that meet after the conversion are one property, holding the
  later value.
\<close>

definition camelFold :: "(string \<times> jsval) list \<Rightarrow> (string \<times> jsval) list \<Rightarrow> (string \<times> jsval) list" where
  "camelFold acc kvs = foldl (\<lambda>acc kv. assign (camelKey (fst kv)) (snd kv) acc) acc kvs"

definition camelEntries :: "(string \<times> jsval) list \<Rightarrow> (string \<times> jsval) list" where
  "camelEntries kvs = camelFold [] kvs"

text \<open>
  Modelled from the spec: \<open>toCamelCase\<close> (missing: \<open>./utils\<close>). Every key of every
  object of a response is converted, also inside arrays and nested objects; a value that
  is neither an array nor a plain object is returned as it is.
\<close>

primrec toCamelCase :: "jsval \<Rightarrow> jsval" where
  "toCamelCase JUndefined = JUndefined"
| "toCamelCase JNull = JNull"
| "toCamelCase (JBool b) = JBool b"
| "toCamelCase (JNumber n) = JNumber n"
| "toCamelCase (JString s) = JString s"
| "toCamelCase (JArray xs) = JArray (map toCamelCase xs)"
| "toCamelCase (JObject kvs) = JObject (camelEntries (map (map_prod id toCamelCase) kvs))"
| "toCamelCase (JError kvs) = JError kvs"

section \<open>The transport\<close>

text \<open>
  \<open>apiClient\<close> is the HTTP client of \<open>./index\<close>. A call sends a request and settles:
  it resolves with a response, of which this program reads \<open>data\<close> only, or it rejects
  with whatever the client throws.
\<close>

datatype request =
    GET string "(string \<times> jsval) list option"
  | POST string jsval

record response =
  data :: jsval

type_synonym outcome = "response settled"

type_synonym transport = "request \<Rightarrow> outcome"

section \<open>The backtest API client\<close>

record BacktestRunRequest =
  req_code :: "string option"
  req_force :: "bool option"
  req_evalWindowDays :: "number option"
  req_limit :: "number option"

record ResultsParams =
  p_code :: "string option"
  p_page :: "number option"
  p_limit :: "number option"

record BacktestResultsResponse =
  r_total :: jsval
  r_page :: jsval
  r_limit :: jsval
  r_items :: jsval

text \<open>An optional field read from a typed parameter object: absent is \<open>undefined\<close>.\<close>

definition opt_string :: "string option \<Rightarrow> jsval" where
  "opt_string s = (case s of None \<Rightarrow> JUndefined | Some x \<Rightarrow> JString x)"

definition opt_bool :: "bool option \<Rightarrow> jsval" where
  "opt_bool b = (case b of None \<Rightarrow> JUndefined | Some x \<Rightarrow> JBool x)"

definition opt_number :: "number option \<Rightarrow> jsval" where
  "opt_number n = (case n of None \<Rightarrow> JUndefined | Some x \<Rightarrow> JNumber x)"

definition noRunParams :: BacktestRunRequest where
  "noRunParams = \<lparr>req_code = None, req_force = None, req_evalWindowDays = None, req_limit = None\<rparr>"

definition noResultsParams :: ResultsParams where
  "noResultsParams = \<lparr>p_code = None, p_page = None, p_limit = None\<rparr>"

subsection \<open>run\<close>

text \<open>The body \<open>requestData\<close> that \<open>run\<close> builds, one guarded assignment per field.\<close>

definition run_requestData :: "BacktestRunRequest \<Rightarrow> (string \<times> jsval) list" where
  "run_requestData params =
     (let requestData = [];
          requestData = (if truthy (opt_string (req_code params))
                         then assign ''code'' (opt_string (req_code params)) requestData
                         else requestData);
          requestData = (if truthy (opt_bool (req_force params))
                         then assign ''force'' (opt_bool (req_force params)) requestData
                         else requestData);
          requestData = (if truthy (opt_number (req_evalWindowDays params))
                         then assign ''eval_window_days''
                                (opt_number (req_evalWindowDays params)) requestData
                         else requestData);
          requestData = (if truthy (opt_number (req_limit params))
                         then assign ''limit'' (opt_number (req_limit params)) requestData
                         else requestData)
      in requestData)"

definition run_request :: "BacktestRunRequest option \<Rightarrow> request" where
  "run_request arg =
     (let params = (case arg of None \<Rightarrow> noRunParams | Some p \<Rightarrow> p)
      in POST ''/api/v1/backtest/run'' (JObject (run_requestData params)))"

text \<open>What \<open>run\<close> does once the awaited call has settled: there is no handler.\<close>

definition run_settled :: "outcome \<Rightarrow> jsval settled" where
  "run_settled out =
     (case out of
        Inl err \<Rightarrow> Inl err
      | Inr response \<Rightarrow> Inr (toCamelCase (data response)))"

definition run :: "transport \<Rightarrow> BacktestRunRequest option \<Rightarrow> jsval settled" where
  "run http arg = run_settled (http (run_request arg))"

subsection \<open>getResults\<close>

definition getResults_request :: "ResultsParams option \<Rightarrow> request" where
  "getResults_request arg =
     (let params = (case arg of None \<Rightarrow> noResultsParams | Some p \<Rightarrow> p);
          code = opt_string (p_code params);
          page = (case p_page params of None \<Rightarrow> JNumber (Num 1) | Some n \<Rightarrow> JNumber n);
          limit = (case p_limit params of None \<Rightarrow> JNumber (Num 20) | Some n \<Rightarrow> JNumber n);
          queryParams = [(''page'', page), (''limit'', limit)];
          queryParams = (if truthy code then assign ''code'' code queryParams else queryParams)
      in GET ''/api/v1/backtest/results'' (Some queryParams))"

definition getResults_settled :: "outcome \<Rightarrow> BacktestResultsResponse settled" where
  "getResults_settled out =
     (case out of
        Inl err \<Rightarrow> Inl err
      | Inr response \<Rightarrow>
          (let d = toCamelCase (data response) in
           (case get_prop d ''total'' of
              Inl e \<Rightarrow> Inl e
            | Inr d_total \<Rightarrow>
           (case get_prop d ''page'' of
              Inl e \<Rightarrow> Inl e
            | Inr d_page \<Rightarrow>
           (case get_prop d ''limit'' of
              Inl e \<Rightarrow> Inl e
            | Inr d_limit \<Rightarrow>
           (case get_prop d ''items'' of
              Inl e \<Rightarrow> Inl e
            | Inr d_items \<Rightarrow>
           (case js_map toCamelCase (if truthy d_items then d_items else JArray []) of
              Inl e \<Rightarrow> Inl e
            | Inr mapped \<Rightarrow>
                Inr \<lparr>r_total = d_total, r_page = d_page, r_limit = d_limit,
                     r_items = mapped\<rparr>)))))))"

definition getResults :: "transport \<Rightarrow> ResultsParams option \<Rightarrow> BacktestResultsResponse settled" where
  "getResults http arg = getResults_settled (http (getResults_request arg))"

subsection \<open>getOverallPerformance and getStockPerformance\<close>

definition getOverallPerformance_request :: request where
  "getOverallPerformance_request = GET ''/api/v1/backtest/performance'' None"

definition getOverallPerformance_settled :: "outcome \<Rightarrow> jsval settled" where
  "getOverallPerformance_settled out =
     (case out of
        Inr response \<Rightarrow> Inr (toCamelCase (data response))
      | Inl err \<Rightarrow>
          if truthy err \<and> typeof err = ''object'' then
            (case in_op ''response'' err of
               Inl e \<Rightarrow> Inl e
             | Inr has \<Rightarrow>
                 if has then
                   (case get_prop err ''response'' of
                      Inl e \<Rightarrow> Inl e
                    | Inr r \<Rightarrow>
                        (case opt_chain r ''status'' of
                           Inl e \<Rightarrow> Inl e
                         | Inr status \<Rightarrow> if strict_eq_num status 404 then Inr JNull else Inl err))
                 else Inl err)
          else Inl err)"

definition getOverallPerformance :: "transport \<Rightarrow> jsval settled" where
  "getOverallPerformance http = getOverallPerformance_settled (http getOverallPerformance_request)"

definition getStockPerformance_request :: "string \<Rightarrow> request" where
  "getStockPerformance_request code =
     GET (''/api/v1/backtest/performance/'' @ encodeURIComponent code) None"

definition getStockPerformance_settled :: "outcome \<Rightarrow> jsval settled" where
  "getStockPerformance_settled out =
     (case out of
        Inr response \<Rightarrow> Inr (toCamelCase (data response))
      | Inl err \<Rightarrow>
          if truthy err \<and> typeof err = ''object'' then
            (case in_op ''response'' err of
               Inl e \<Rightarrow> Inl e
             | Inr has \<Rightarrow>
                 if has then
                   (case get_prop err ''response'' of
                      Inl e \<Rightarrow> Inl e
                    | Inr r \<Rightarrow>
                        (case opt_chain r ''status'' of
                           Inl e \<Rightarrow> Inl e
                         | Inr status \<Rightarrow> if strict_eq_num status 404 then Inr JNull else Inl err))
                 else Inl err)
          else Inl err)"

definition getStockPerformance :: "transport \<Rightarrow> string \<Rightarrow> jsval settled" where
  "getStockPerformance http code = getStockPerformance_settled (http (getStockPerformance_request code))"

section \<open>The backtest page\<close>

text \<open>
  The state of the page component is the tuple of its \<open>useState\<close> cells. The world
  around it records what the component does beyond its state: the lines written with
  \<open>console.error\<close>, the requests handed to the transport (in the order of the calls),
  and the calls that are still awaited. An awaited call is kept with what the
  suspended function needs when it resumes; \<open>AwaitRun\<close> holds the \<open>codeFilter\<close> that
  the closure of \<open>handleRun\<close> captured.
\<close>

datatype continuation =
    AwaitRun string
  | AwaitResults
  | AwaitOverall "string option"
  | AwaitStock

record page =
  codeFilter :: string
  isRunning :: bool
  runResult :: jsval
  runError :: jsval
  results :: jsval
  totalResults :: jsval
  currentPage :: jsval
  isLoadingResults :: bool
  overallPerf :: jsval
  stockPerf :: jsval
  isLoadingPerf :: bool

record world = page +
  console :: "(string \<times> jsval) list"
  sent :: "request list"
  pending :: "(request \<times> continuation) list"

definition pageSize :: rat where
  "pageSize = 20"

definition initial :: world where
  "initial =
     \<lparr>codeFilter = [], isRunning = False, runResult = JNull, runError = JNull,
      results = JArray [], totalResults = JNumber (Num 0), currentPage = JNumber (Num 1),
      isLoadingResults = False, overallPerf = JNull, stockPerf = JNull,
      isLoadingPerf = False, console = [], sent = [], pending = []\<rparr>"

text \<open>\<open>c || undefined\<close> for an optional string, and the test \<open>if (c)\<close> on it.\<close>

definition orUndefined :: "string option \<Rightarrow> string option" where
  "orUndefined c = (if truthy (opt_string c) then c else None)"

subsection \<open>fetchResults\<close>

definition fetchResults_start :: "number option \<Rightarrow> string option \<Rightarrow> world \<Rightarrow> world" where
  "fetchResults_start pageArg code w =
     (let page = (case pageArg of None \<Rightarrow> Num 1 | Some p \<Rightarrow> p);
          w = w\<lparr>isLoadingResults := True\<rparr>;
          rq = getResults_request
                 (Some \<lparr>p_code = orUndefined code, p_page = Some page, p_limit = Some (Num pageSize)\<rparr>)
      in w\<lparr>sent := sent w @ [rq], pending := pending w @ [(rq, AwaitResults)]\<rparr>)"

definition fetchResults_settled :: "outcome \<Rightarrow> world \<Rightarrow> world" where
  "fetchResults_settled out w =
     (let w = (case getResults_settled out of
                 Inr response \<Rightarrow>
                   w\<lparr>results := r_items response,
                     totalResults := r_total response,
                     currentPage := r_page response\<rparr>
               | Inl err \<Rightarrow>
                   w\<lparr>console := console w @ [(''Failed to fetch backtest results:'', err)]\<rparr>)
      in w\<lparr>isLoadingResults := False\<rparr>)"

subsection \<open>fetchPerformance\<close>

definition fetchPerformance_start :: "string option \<Rightarrow> world \<Rightarrow> world" where
  "fetchPerformance_start code w =
     (let w = w\<lparr>isLoadingPerf := True\<rparr>;
          rq = getOverallPerformance_request
      in w\<lparr>sent := sent w @ [rq], pending := pending w @ [(rq, AwaitOverall code)]\<rparr>)"

definition fetchPerformance_overall_settled :: "string option \<Rightarrow> outcome \<Rightarrow> world \<Rightarrow> world" where
  "fetchPerformance_overall_settled code out w =
     (case getOverallPerformance_settled out of
        Inr overall \<Rightarrow>
          (let w = w\<lparr>overallPerf := overall\<rparr> in
           case orUndefined code of
             Some c \<Rightarrow>
               (let rq = getStockPerformance_request c
                in w\<lparr>sent := sent w @ [rq], pending := pending w @ [(rq, AwaitStock)]\<rparr>)
           | None \<Rightarrow> w\<lparr>stockPerf := JNull, isLoadingPerf := False\<rparr>)
      | Inl err \<Rightarrow>
          w\<lparr>console := console w @ [(''Failed to fetch performance:'', err)],
            isLoadingPerf := False\<rparr>)"

definition fetchPerformance_stock_settled :: "outcome \<Rightarrow> world \<Rightarrow> world" where
  "fetchPerformance_stock_settled out w =
     (let w = (case getStockPerformance_settled out of
                 Inr stock \<Rightarrow> w\<lparr>stockPerf := stock\<rparr>
               | Inl err \<Rightarrow>
                   w\<lparr>console := console w @ [(''Failed to fetch performance:'', err)]\<rparr>)
      in w\<lparr>isLoadingPerf := False\<rparr>)"

subsection \<open>The handlers\<close>

text \<open>\<open>err instanceof Error ? err.message : 'Backtest failed'\<close>\<close>

fun runErrorText :: "jsval \<Rightarrow> jsval" where
  "runErrorText (JError kvs) =
     (case map_of kvs ''message'' of Some m \<Rightarrow> m | None \<Rightarrow> JString [])"
| "runErrorText err = JString ''Backtest failed''"

definition mount :: "world \<Rightarrow> world" where
  "mount w = fetchPerformance_start None (fetchResults_start (Some (Num 1)) None w)"

definition handleRun_start :: "world \<Rightarrow> world" where
  "handleRun_start w =
     (let captured = codeFilter w;
          w = w\<lparr>isRunning := True, runResult := JNull, runError := JNull\<rparr>;
          code = orUndefined (Some (trim captured));
          rq = run_request (Some (noRunParams\<lparr>req_code := code\<rparr>))
      in w\<lparr>sent := sent w @ [rq], pending := pending w @ [(rq, AwaitRun captured)]\<rparr>)"

definition handleRun_settled :: "string \<Rightarrow> outcome \<Rightarrow> world \<Rightarrow> world" where
  "handleRun_settled captured out w =
     (let w = (case run_settled out of
                 Inr response \<Rightarrow>
                   (let w = w\<lparr>runResult := response\<rparr>;
                        w = fetchResults_start (Some (Num 1)) (orUndefined (Some (trim captured))) w;
                        w = fetchPerformance_start (orUndefined (Some (trim captured))) w
                    in w)
               | Inl err \<Rightarrow> w\<lparr>runError := runErrorText err\<rparr>)
      in w\<lparr>isRunning := False\<rparr>)"

definition handleFilter :: "world \<Rightarrow> world" where
  "handleFilter w =
     (let code = orUndefined (Some (trim (codeFilter w)));
          w = w\<lparr>currentPage := JNumber (Num 1)\<rparr>;
          w = fetchResults_start (Some (Num 1)) code w;
          w = fetchPerformance_start code w
      in w)"

definition handleKeyDown :: "string \<Rightarrow> world \<Rightarrow> world" where
  "handleKeyDown key w = (if key = ''Enter'' then handleFilter w else w)"

definition handlePageChange :: "number \<Rightarrow> world \<Rightarrow> world" where
  "handlePageChange p w =
     fetchResults_start (Some p) (orUndefined (Some (trim (codeFilter w)))) w"

subsection \<open>Awaited calls settling\<close>

fun resume :: "continuation \<Rightarrow> outcome \<Rightarrow> world \<Rightarrow> world" where
  "resume (AwaitRun captured) out w = handleRun_settled captured out w"
| "resume AwaitResults out w = fetchResults_settled out w"
| "resume (AwaitOverall code) out w = fetchPerformance_overall_settled code out w"
| "resume AwaitStock out w = fetchPerformance_stock_settled out w"

text \<open>The \<open>i\<close>-th awaited call settles with \<open>out\<close>; the suspended function goes on.\<close>

definition deliver :: "nat \<Rightarrow> outcome \<Rightarrow> world \<Rightarrow> world" where
  "deliver i out w =
     (if i < length (pending w)
      then resume (snd (pending w ! i)) out
             (w\<lparr>pending := take i (pending w) @ drop (Suc i) (pending w)\<rparr>)
      else w)"

text \<open>
  The page left alone until nothing is awaited any more, the transport answering every
  request in the order of the calls. A resumed function awaits at most what it is worth
  in \<open>weight\<close>, less one: a run is followed by the two fetches, an overall request by
  one per-code request. So the \<open>load\<close> of the awaited calls falls with every answer and
  the page comes to rest.
\<close>

fun weight :: "continuation \<Rightarrow> nat" where
  "weight (AwaitRun captured) = 4"
| "weight AwaitResults = 1"
| "weight (AwaitOverall code) = 2"
| "weight AwaitStock = 1"

definition load :: "world \<Rightarrow> nat" where
  "load w = sum_list (map (\<lambda>rk. weight (snd rk)) (pending w))"

function settle :: "transport \<Rightarrow> world \<Rightarrow> world" where
  "settle http w =
     (case pending w of
        [] \<Rightarrow> w
      | (rq, k) # rest \<Rightarrow> settle http (resume k (http rq) (w\<lparr>pending := rest\<rparr>)))"
  by pat_completeness auto
termination
proof (relation "measure (\<lambda>(http, w). load w)")
  show "wf (measure (\<lambda>(http, w). load w))" by simp
next
  fix http :: transport and w :: world and x xs rq k
  assume p: "pending w = x # xs" and x: "(rq, k) = x"
  let ?w = "w\<lparr>pending := xs\<rparr>"
  have "load (resume k (http rq) ?w) < weight k + load ?w"
  proof (cases k)
    case (AwaitRun captured)
    then show ?thesis
      by (simp add: load_def handleRun_settled_def fetchResults_start_def
          fetchPerformance_start_def Let_def split: sum.splits)
  next
    case AwaitResults
    then show ?thesis
      by (simp add: load_def fetchResults_settled_def Let_def split: sum.splits)
  next
    case (AwaitOverall code)
    then show ?thesis
      by (simp add: load_def fetchPerformance_overall_settled_def Let_def
          split: sum.splits option.splits)
  next
    case AwaitStock
    then show ?thesis
      by (simp add: load_def fetchPerformance_stock_settled_def Let_def split: sum.splits)
  qed
  also have "weight k + load ?w = load w"
    using p x by (auto simp: load_def)
  finally show "((http, resume k (http rq) ?w), http, w) \<in> measure (\<lambda>(http, w). load w)"
    by simp
qed

declare settle.simps [simp del]

section \<open>What the claims speak of\<close>

text \<open>
  A failed HTTP request: the transport rejects with an error object whose \<open>response\<close>
  holds the status the server answered with. \<open>reports_status err s\<close> says that \<open>err\<close>
  is such an object for the status \<open>s\<close>; it is the reading of ``the request fails
  with status \<open>s\<close>'' and is not taken from the handlers of the client.
\<close>

fun own_props :: "jsval \<Rightarrow> (string \<times> jsval) list option" where
  "own_props (JObject kvs) = Some kvs"
| "own_props (JError kvs) = Some kvs"
| "own_props v = None"

definition reports_status :: "jsval \<Rightarrow> rat \<Rightarrow> bool" where
  "reports_status err s =
     (case own_props err of
        None \<Rightarrow> False
      | Some kvs \<Rightarrow>
          (case map_of kvs ''response'' of
             None \<Rightarrow> False
           | Some r \<Rightarrow>
               (case own_props r of
                  None \<Rightarrow> False
                | Some rs \<Rightarrow> map_of rs ''status'' = Some (JNumber (Num s)))))"

text \<open>Two failures a transport produces: an answer with a status, and no answer at all.\<close>

definition failure :: "rat \<Rightarrow> jsval" where
  "failure s =
     JError [(''message'', JString ''Request failed''),
             (''response'', JObject [(''status'', JNumber (Num s)), (''data'', JNull)])]"

definition networkError :: jsval where
  "networkError = JError [(''message'', JString ''Network Error'')]"

text \<open>
  The four optional fields of the parameters of \<open>run\<close> under their names on the wire,
  and the body the interface description promises: every field the caller gave.
\<close>

definition run_fields :: "BacktestRunRequest \<Rightarrow> (string \<times> jsval) list" where
  "run_fields params =
     [(''code'', opt_string (req_code params)),
      (''force'', opt_bool (req_force params)),
      (''eval_window_days'', opt_number (req_evalWindowDays params)),
      (''limit'', opt_number (req_limit params))]"

definition spec_run_body :: "BacktestRunRequest \<Rightarrow> jsval" where
  "spec_run_body params = JObject (filter (\<lambda>kv. snd kv \<noteq> JUndefined) (run_fields params))"

text \<open>
  The code filter in force for a text in the filter box: the trimmed text, and none when
  nothing is left of it. \<open>resultsRequest p c\<close> is the request for page \<open>p\<close> of the
  result list, twenty to a page, with the parameter \<open>code\<close> exactly when there is a
  filter \<open>c\<close>.
\<close>

definition activeFilter :: "string \<Rightarrow> string option" where
  "activeFilter text = (if trim text = [] then None else Some (trim text))"

definition resultsRequest :: "number \<Rightarrow> string option \<Rightarrow> request" where
  "resultsRequest p c =
     GET ''/api/v1/backtest/results''
       (Some ([(''page'', JNumber p), (''limit'', JNumber (Num 20))]
              @ (case c of None \<Rightarrow> [] | Some s \<Rightarrow> [(''code'', JString s)])))"

text \<open>Servers and answers for the concrete runs below.\<close>

definition serverItems :: "jsval list" where
  "serverItems =
     [JObject [(''analysis_history_id'', JNumber (Num 7)), (''code'', JString ''AAPL''),
               (''eval_status'', JString ''completed''), (''simulated_return_pct'', JNumber (Num (5/2)))],
      JObject [(''analysis_history_id'', JNumber (Num 8)), (''code'', JString ''AAPL''),
               (''eval_status'', JString ''insufficient''), (''simulated_return_pct'', JNull)]]"

definition exampleServer :: transport where
  "exampleServer rq =
     (if rq = GET ''/api/v1/backtest/results''
                (Some [(''page'', JNumber (Num 2)), (''limit'', JNumber (Num 20)),
                       (''code'', JString ''AAPL'')])
      then Inr \<lparr>data = JObject [(''total'', JNumber (Num 45)), (''page'', JNumber (Num 2)),
                               (''limit'', JNumber (Num 20)), (''items'', JArray serverItems)]\<rparr>
      else Inl networkError)"

definition overallDown :: transport where
  "overallDown rq =
     (if rq = getOverallPerformance_request then Inl (failure 500)
      else Inr \<lparr>data = JObject [(''total'', JNumber (Num 0)), (''page'', JNumber (Num 1)),
                               (''limit'', JNumber (Num 20)), (''items'', JArray [])]\<rparr>)"

definition stockDown :: transport where
  "stockDown rq =
     (if rq = getOverallPerformance_request
      then Inr \<lparr>data = JObject [(''win_rate_pct'', JNumber (Num 55))]\<rparr>
      else Inl (failure 500))"

definition runOk :: outcome where
  "runOk =
     Inr \<lparr>data = JObject [(''processed'', JNumber (Num 3)), (''saved'', JNumber (Num 3)),
                          (''completed'', JNumber (Num 2)), (''insufficient'', JNumber (Num 1)),
                          (''errors'', JNumber (Num 0))]\<rparr>"

definition perfOk :: outcome where
  "perfOk = Inr \<lparr>data = JObject [(''win_rate_pct'', JNumber (Num 55))]\<rparr>"

definition typed :: "string \<Rightarrow> world" where
  "typed text = initial\<lparr>codeFilter := text\<rparr>"

section \<open>Key conversion: facts\<close>

lemma upper_not_underscore: "c \<noteq> CHR ''_'' \<Longrightarrow> upper c \<noteq> CHR ''_''"
  by (auto simp: upper_def split: option.splits if_splits)

lemma camel_no_underscore: "CHR ''_'' \<notin> set (camel s u cs)"
proof (induction cs arbitrary: s u)
  case Nil
  then show ?case by simp
next
  case (Cons c cs)
  show ?case
  proof (cases "c = CHR ''_''")
    case True
    then show ?thesis using Cons.IH by simp
  next
    case False
    then have "upper c \<noteq> CHR ''_''" by (rule upper_not_underscore)
    with False show ?thesis using Cons.IH [of True False] by auto
  qed
qed

lemma camel_fixed: "CHR ''_'' \<notin> set cs \<Longrightarrow> camel s False cs = cs"
  by (induction cs arbitrary: s) auto

lemma camelKey_idem: "camelKey (camelKey k) = camelKey k"
  by (simp add: camelKey_def camel_fixed camel_no_underscore)

lemma assign_fresh: "k \<notin> fst ` set kvs \<Longrightarrow> assign k v kvs = kvs @ [(k, v)]"
  by (induction kvs) (auto simp: assign_def)

lemma assign_set: "set (assign k v kvs) \<subseteq> insert (k, v) (set kvs)"
  by (induction kvs) (auto simp: assign_def)

lemma assign_distinct: "distinct (map fst kvs) \<Longrightarrow> distinct (map fst (assign k v kvs))"
  by (simp add: assign_def distinct_update)

lemma camelFold_distinct:
  "distinct (map fst acc) \<Longrightarrow> distinct (map fst (camelFold acc kvs))"
  by (induction kvs arbitrary: acc) (auto simp: camelFold_def assign_distinct)

lemma camelFold_set:
  "set (camelFold acc kvs) \<subseteq> set acc \<union> (\<lambda>kv. (camelKey (fst kv), snd kv)) ` set kvs"
proof (induction kvs arbitrary: acc)
  case Nil
  then show ?case by (simp add: camelFold_def)
next
  case (Cons kv kvs)
  have "set (camelFold acc (kv # kvs)) = set (camelFold (assign (camelKey (fst kv)) (snd kv) acc) kvs)"
    by (simp add: camelFold_def)
  also have "\<dots> \<subseteq> set (assign (camelKey (fst kv)) (snd kv) acc) \<union> (\<lambda>kv. (camelKey (fst kv), snd kv)) ` set kvs"
    by (rule Cons.IH)
  also have "\<dots> \<subseteq> set acc \<union> (\<lambda>kv. (camelKey (fst kv), snd kv)) ` set (kv # kvs)"
    using assign_set [of "camelKey (fst kv)" "snd kv" acc] by auto
  finally show ?case .
qed

lemma camelFold_fixed:
  "distinct (map fst (acc @ kvs)) \<Longrightarrow> (\<And>kv. kv \<in> set kvs \<Longrightarrow> camelKey (fst kv) = fst kv)
   \<Longrightarrow> camelFold acc kvs = acc @ kvs"
proof (induction kvs arbitrary: acc)
  case Nil
  then show ?case by (simp add: camelFold_def)
next
  case (Cons kv kvs)
  have k: "camelKey (fst kv) = fst kv" using Cons.prems(2) by simp
  have fresh: "fst kv \<notin> fst ` set acc" using Cons.prems(1) by auto
  have step: "assign (camelKey (fst kv)) (snd kv) acc = acc @ [kv]"
    using assign_fresh [OF fresh] k by simp
  have "camelFold acc (kv # kvs) = camelFold (acc @ [kv]) kvs"
    by (simp add: camelFold_def step)
  also have "\<dots> = (acc @ [kv]) @ kvs"
    using Cons.prems by (intro Cons.IH) auto
  finally show ?case by simp
qed

lemma camelEntries_fold: "camelEntries kvs = camelFold [] kvs"
  by (simp add: camelEntries_def)

lemma toCamelCase_idem: "toCamelCase (toCamelCase v) = toCamelCase v"
proof (induction v)
  case (JArray xs)
  then show ?case by simp
next
  case (JObject kvs)
  define R where "R = camelEntries (map (map_prod id toCamelCase) kvs)"
  have dist: "distinct (map fst R)"
    unfolding R_def camelEntries_fold by (rule camelFold_distinct) simp
  have mem: "\<exists>kv0 \<in> set kvs. kv = (camelKey (fst kv0), toCamelCase (snd kv0))" if "kv \<in> set R" for kv
  proof -
    have "kv \<in> (\<lambda>kv. (camelKey (fst kv), snd kv)) ` set (map (map_prod id toCamelCase) kvs)"
      using that camelFold_set [of "[]" "map (map_prod id toCamelCase) kvs"]
      unfolding R_def camelEntries_fold by auto
    then obtain kv1 where "kv1 \<in> set (map (map_prod id toCamelCase) kvs)"
      and eq1: "kv = (camelKey (fst kv1), snd kv1)" by blast
    then obtain kv0 where "kv0 \<in> set kvs" and "kv1 = map_prod id toCamelCase kv0" by auto
    with eq1 show ?thesis by (cases kv0) force
  qed
  have fixed: "map_prod id toCamelCase kv = kv" if inR: "kv \<in> set R" for kv
  proof -
    obtain kv0 where kv0: "kv0 \<in> set kvs" and eq: "kv = (camelKey (fst kv0), toCamelCase (snd kv0))"
      using mem [OF inR] by blast
    have "snd kv0 \<in> Basic_BNFs.snds kv0" by (cases kv0) simp
    then have "toCamelCase (toCamelCase (snd kv0)) = toCamelCase (snd kv0)"
      using JObject kv0 by blast
    then show ?thesis by (simp add: eq)
  qed
  have keys: "camelKey (fst kv) = fst kv" if "kv \<in> set R" for kv
    using mem [OF that] by (auto simp: camelKey_idem)
  have "map (map_prod id toCamelCase) R = R"
    by (rule map_idI) (rule fixed)
  moreover have "camelEntries R = R"
    unfolding camelEntries_fold using camelFold_fixed [of "[]" R] dist keys by simp
  ultimately show ?case by (simp add: R_def)
qed simp_all

section \<open>The API client: facts and claims\<close>

subsection \<open>The performance calls and a failed request\<close>

lemma status_read:
  "own_props r = Some rs \<Longrightarrow>
   opt_chain r ''status'' = Inr (case map_of rs ''status'' of Some v \<Rightarrow> v | None \<Rightarrow> JUndefined)"
  by (cases r) (simp_all add: opt_chain_def)

lemma status_read_none:
  "own_props r = None \<Longrightarrow> opt_chain r ''status'' = Inr JUndefined"
  by (cases r) (simp_all add: opt_chain_def)

lemma strict_eq_num_iff: "strict_eq_num v n \<longleftrightarrow> v = JNumber (Num n)"
  by (cases "(v, n)" rule: strict_eq_num.cases) auto

lemma overall_404: "reports_status err 404 \<Longrightarrow> getOverallPerformance_settled (Inl err) = Inr JNull"
  by (cases err)
     (auto simp: reports_status_def getOverallPerformance_settled_def status_read
           split: option.splits)

lemma stock_404: "reports_status err 404 \<Longrightarrow> getStockPerformance_settled (Inl err) = Inr JNull"
  by (cases err)
     (auto simp: reports_status_def getStockPerformance_settled_def status_read
           split: option.splits)

lemma overall_other: "\<not> reports_status err 404 \<Longrightarrow> getOverallPerformance_settled (Inl err) = Inl err"
  by (cases err)
     (auto simp: reports_status_def getOverallPerformance_settled_def status_read status_read_none
        strict_eq_num_iff split: option.splits)

lemma stock_other: "\<not> reports_status err 404 \<Longrightarrow> getStockPerformance_settled (Inl err) = Inl err"
  by (cases err)
     (auto simp: reports_status_def getStockPerformance_settled_def status_read status_read_none
        strict_eq_num_iff split: option.splits)

text \<open>
  Claim C1. When the HTTP request behind \<open>getOverallPerformance()\<close> or behind
  \<open>getStockPerformance(code)\<close> fails with status 404, the call resolves to \<open>null\<close>;
  it does not reject.
\<close>

theorem performance_not_found_is_null:
  assumes "reports_status err 404"
  shows "(http getOverallPerformance_request = Inl err \<longrightarrow> getOverallPerformance http = Inr JNull)
       \<and> (http (getStockPerformance_request code) = Inl err \<longrightarrow>
            getStockPerformance http code = Inr JNull)"
  using assms
  by (simp add: getOverallPerformance_def getStockPerformance_def overall_404 stock_404)

text \<open>
  A rejected request with status 404, answered the same way to every request.
\<close>

theorem performance_not_found_is_null_witness:
  "reports_status (failure 404) 404
   \<and> getOverallPerformance (\<lambda>rq. Inl (failure 404)) = Inr JNull
   \<and> getStockPerformance (\<lambda>rq. Inl (failure 404)) ''AAPL'' = Inr JNull"
proof -
  have h: "reports_status (failure 404) 404"
    by (simp add: reports_status_def failure_def)
  show ?thesis
    using h performance_not_found_is_null [OF h, of "\<lambda>rq. Inl (failure 404)" "''AAPL''"]
    by simp
qed

text \<open>
  Claim C6. When the HTTP request behind \<open>getOverallPerformance()\<close> or behind
  \<open>getStockPerformance(code)\<close> fails with an error that is not a 404 response, the
  call rejects with that very error.
\<close>

theorem performance_other_failure_rejects:
  assumes "\<not> reports_status err 404"
  shows "(http getOverallPerformance_request = Inl err \<longrightarrow> getOverallPerformance http = Inl err)
       \<and> (http (getStockPerformance_request code) = Inl err \<longrightarrow>
            getStockPerformance http code = Inl err)"
  using assms
  by (simp add: getOverallPerformance_def getStockPerformance_def overall_other stock_other)

text \<open>
  A rejected request with status 500.
\<close>

theorem performance_other_failure_rejects_witness:
  "\<not> reports_status (failure 500) 404
   \<and> getOverallPerformance (\<lambda>rq. Inl (failure 500)) = Inl (failure 500)
   \<and> getStockPerformance (\<lambda>rq. Inl (failure 500)) ''AAPL'' = Inl (failure 500)"
proof -
  have h: "\<not> reports_status (failure 500) 404"
    by (simp add: reports_status_def failure_def)
  show ?thesis
    using h performance_other_failure_rejects [OF h, of "\<lambda>rq. Inl (failure 500)" "''AAPL''"]
    by simp
qed

subsection \<open>The request of getResults\<close>

text \<open>
  Claim C7. \<open>getResults\<close> called with an empty parameter object sends a request with
  page 1 and limit 20 and without a \<open>code\<close> parameter.
\<close>

theorem getResults_defaults:
  "getResults_request (Some noResultsParams) =
     GET ''/api/v1/backtest/results'' (Some [(''page'', JNumber (Num 1)), (''limit'', JNumber (Num 20))])
   \<and> getResults_request None = getResults_request (Some noResultsParams)
   \<and> getResults http (Some noResultsParams) =
     getResults_settled
       (http (GET ''/api/v1/backtest/results''
                (Some [(''page'', JNumber (Num 1)), (''limit'', JNumber (Num 20))])))"
  by (simp add: getResults_def getResults_request_def noResultsParams_def opt_string_def)

subsection \<open>The body of run\<close>

lemma run_requestData_truthy:
  "run_requestData params = filter (\<lambda>kv. truthy (snd kv)) (run_fields params)"
  by (simp add: run_requestData_def run_fields_def assign_def Let_def)

text \<open>
  Claim C9, as amended. For every parameter object, \<open>run\<close> sends a body that holds
  exactly those of the fields \<open>code\<close>, \<open>force\<close>, \<open>eval_window_days\<close> (from
  \<open>evalWindowDays\<close>) and \<open>limit\<close> whose value in the parameters is truthy, each with
  that value; an empty code, \<open>force: false\<close> and a window or limit of 0 are left out.
  When the transport fails, \<open>run\<close> rejects with the error of the transport.
\<close>

theorem run_sends_truthy_fields:
  "run_request (Some params) =
     POST ''/api/v1/backtest/run''
       (JObject (filter (\<lambda>kv. truthy (snd kv))
          [(''code'', opt_string (req_code params)),
           (''force'', opt_bool (req_force params)),
           (''eval_window_days'', opt_number (req_evalWindowDays params)),
           (''limit'', opt_number (req_limit params))]))
   \<and> (http (run_request (Some params)) = Inl err \<longrightarrow> run http (Some params) = Inl err)"
  by (simp add: run_request_def run_requestData_truthy run_fields_def run_def run_settled_def)

text \<open>
  The claim as it was stated asks for every field the caller gave. With
  \<open>{force: false, limit: 0}\<close> the body that is sent is empty.
\<close>

theorem run_body_counterexample:
  "run_request (Some (noRunParams\<lparr>req_force := Some False, req_limit := Some (Num 0)\<rparr>))
     \<noteq> POST ''/api/v1/backtest/run''
         (spec_run_body (noRunParams\<lparr>req_force := Some False, req_limit := Some (Num 0)\<rparr>))
   \<and> run_request (Some (noRunParams\<lparr>req_force := Some False, req_limit := Some (Num 0)\<rparr>))
     = POST ''/api/v1/backtest/run'' (JObject [])
   \<and> spec_run_body (noRunParams\<lparr>req_force := Some False, req_limit := Some (Num 0)\<rparr>)
     = JObject [(''force'', JBool False), (''limit'', JNumber (Num 0))]"
  by (simp add: run_request_def run_requestData_def spec_run_body_def run_fields_def
      noRunParams_def opt_string_def opt_bool_def opt_number_def assign_def)

text \<open>
  A call with a code, \<open>force: true\<close>, a window of ten days and the limit 0, over a
  transport that is down.
\<close>

theorem run_sends_truthy_fields_witness:
  "run_request (Some \<lparr>req_code = Some ''AAPL'', req_force = Some True,
                      req_evalWindowDays = Some (Num 10), req_limit = Some (Num 0)\<rparr>) =
     POST ''/api/v1/backtest/run''
       (JObject [(''code'', JString ''AAPL''), (''force'', JBool True),
                 (''eval_window_days'', JNumber (Num 10))])
   \<and> run (\<lambda>rq. Inl networkError)
         (Some \<lparr>req_code = Some ''AAPL'', req_force = Some True,
                req_evalWindowDays = Some (Num 10), req_limit = Some (Num 0)\<rparr>)
       = Inl networkError"
  using run_sends_truthy_fields
    [of "\<lparr>req_code = Some ''AAPL'', req_force = Some True,
          req_evalWindowDays = Some (Num 10), req_limit = Some (Num 0)\<rparr>"
        "\<lambda>rq. Inl networkError" networkError]
  by (simp add: opt_string_def opt_bool_def opt_number_def)

subsection \<open>The value of getResults\<close>

lemma js_map_array: "js_map f v = Inr r \<Longrightarrow> \<exists>xs. r = JArray xs"
  by (cases v) auto

lemma getResults_settled_items:
  "getResults_settled out = Inr r \<Longrightarrow> \<exists>xs. r_items r = JArray xs"
  by (auto simp: getResults_settled_def Let_def split: sum.splits dest: js_map_array)

lemma getResults_settled_object:
  assumes "toCamelCase (data response) = JObject kvs"
  shows "getResults_settled (Inr response) =
     (case js_map toCamelCase
             (if truthy (case map_of kvs ''items'' of Some v \<Rightarrow> v | None \<Rightarrow> JUndefined)
              then (case map_of kvs ''items'' of Some v \<Rightarrow> v | None \<Rightarrow> JUndefined)
              else JArray []) of
        Inl e \<Rightarrow> Inl e
      | Inr mapped \<Rightarrow>
          Inr \<lparr>r_total = (case map_of kvs ''total'' of Some v \<Rightarrow> v | None \<Rightarrow> JUndefined),
               r_page = (case map_of kvs ''page'' of Some v \<Rightarrow> v | None \<Rightarrow> JUndefined),
               r_limit = (case map_of kvs ''limit'' of Some v \<Rightarrow> v | None \<Rightarrow> JUndefined),
               r_items = mapped\<rparr>)"
  using assms by (simp add: getResults_settled_def Let_def)

text \<open>
  Claim C10. Whatever the server answers, a value that \<open>getResults\<close> returns has an
  array in \<open>items\<close>. When the answer, as the client reads it, is an object without
  \<open>items\<close> or with \<open>items: null\<close>, \<open>getResults\<close> does return, and \<open>items\<close> is
  the empty array; when \<open>items\<close> is an array, \<open>getResults\<close> returns the converted
  array.
\<close>

theorem getResults_items_is_array:
  "(getResults_settled out = Inr r \<longrightarrow> (\<exists>xs. r_items r = JArray xs))
   \<and> (toCamelCase (data response) = JObject kvs \<and>
        (map_of kvs ''items'' = None \<or> map_of kvs ''items'' = Some JNull) \<longrightarrow>
        (\<exists>r'. getResults_settled (Inr response) = Inr r' \<and> r_items r' = JArray []))
   \<and> (toCamelCase (data response) = JObject kvs \<and> map_of kvs ''items'' = Some (JArray xs) \<longrightarrow>
        (\<exists>r'. getResults_settled (Inr response) = Inr r' \<and>
              r_items r' = JArray (map toCamelCase xs)))"
proof (intro conjI impI)
  assume "getResults_settled out = Inr r"
  then show "\<exists>xs. r_items r = JArray xs" by (rule getResults_settled_items)
next
  assume "toCamelCase (data response) = JObject kvs \<and>
        (map_of kvs ''items'' = None \<or> map_of kvs ''items'' = Some JNull)"
  then show "\<exists>r'. getResults_settled (Inr response) = Inr r' \<and> r_items r' = JArray []"
    by (auto simp: getResults_settled_object)
next
  assume "toCamelCase (data response) = JObject kvs \<and> map_of kvs ''items'' = Some (JArray xs)"
  then show "\<exists>r'. getResults_settled (Inr response) = Inr r' \<and>
              r_items r' = JArray (map toCamelCase xs)"
    by (auto simp: getResults_settled_object)
qed

text \<open>
  An answer with \<open>items: null\<close>, and one without \<open>items\<close>.
\<close>

theorem getResults_items_is_array_witness:
  "getResults_settled (Inr \<lparr>data = JObject [(''total'', JNumber (Num 0)), (''page'', JNumber (Num 1)),
                                  (''limit'', JNumber (Num 20)), (''items'', JNull)]\<rparr>)
   = Inr \<lparr>r_total = JNumber (Num 0), r_page = JNumber (Num 1), r_limit = JNumber (Num 20),
          r_items = JArray []\<rparr>
   \<and> (\<exists>r'. getResults_settled (Inr \<lparr>data = JObject [(''total'', JNumber (Num 0))]\<rparr>) = Inr r'
           \<and> r_items r' = JArray [])"
proof -
  have b: "toCamelCase (JObject [(''total'', JNumber (Num 0))]) = JObject [(''total'', JNumber (Num 0))]"
    by code_simp
  have second: "\<exists>r'. getResults_settled (Inr \<lparr>data = JObject [(''total'', JNumber (Num 0))]\<rparr>) = Inr r'
               \<and> r_items r' = JArray []"
    using getResults_items_is_array
      [where response = "\<lparr>data = JObject [(''total'', JNumber (Num 0))]\<rparr>"
         and kvs = "[(''total'', JNumber (Num 0))]"] b
    by simp
  have whole: "getResults_settled
                 (Inr \<lparr>data = JObject [(''total'', JNumber (Num 0)), (''page'', JNumber (Num 1)),
                                       (''limit'', JNumber (Num 20)), (''items'', JNull)]\<rparr>)
      = Inr \<lparr>r_total = JNumber (Num 0), r_page = JNumber (Num 1), r_limit = JNumber (Num 20),
             r_items = JArray []\<rparr>"
    by code_simp
  show ?thesis
    using whole second by simp
qed

lemma camelKey_total: "camelKey ''total'' = ''total''" by (simp add: camelKey_def)

lemma camelKey_page: "camelKey ''page'' = ''page''" by (simp add: camelKey_def)

lemma camelKey_limit: "camelKey ''limit'' = ''limit''" by (simp add: camelKey_def)

lemma camelKey_items: "camelKey ''items'' = ''items''" by (simp add: camelKey_def)

lemma toCamelCase_results_shape:
  "toCamelCase (JObject [(''total'', t), (''page'', p), (''limit'', l), (''items'', JArray its)])
     = JObject [(''total'', toCamelCase t), (''page'', toCamelCase p), (''limit'', toCamelCase l),
                (''items'', JArray (map toCamelCase its))]"
  by (simp add: camelEntries_def camelFold_def camelKey_total camelKey_page camelKey_limit
      camelKey_items assign_def)

text \<open>
  Claim C2. For the parameters code \<open>AAPL\<close>, page 2 and limit 20, when the server
  answers the request with \<open>{total: 45, page: 2, limit: 20, items: [...]}\<close>, the call
  \<open>getResults\<close> returns that shape: the same total, page and limit, and the items with
  the keys of every item converted to camel case.
\<close>

theorem getResults_example:
  assumes "http (GET ''/api/v1/backtest/results''
                   (Some [(''page'', JNumber (Num 2)), (''limit'', JNumber (Num 20)),
                          (''code'', JString ''AAPL'')]))
           = Inr \<lparr>data = JObject [(''total'', JNumber (Num 45)), (''page'', JNumber (Num 2)),
                                  (''limit'', JNumber (Num 20)), (''items'', JArray its)]\<rparr>"
  shows "getResults http (Some \<lparr>p_code = Some ''AAPL'', p_page = Some (Num 2), p_limit = Some (Num 20)\<rparr>)
         = Inr \<lparr>r_total = JNumber (Num 45), r_page = JNumber (Num 2), r_limit = JNumber (Num 20),
                r_items = JArray (map toCamelCase its)\<rparr>"
proof -
  have rq: "getResults_request (Some \<lparr>p_code = Some ''AAPL'', p_page = Some (Num 2), p_limit = Some (Num 20)\<rparr>)
      = GET ''/api/v1/backtest/results''
                   (Some [(''page'', JNumber (Num 2)), (''limit'', JNumber (Num 20)),
                          (''code'', JString ''AAPL'')])"
    by (simp add: getResults_request_def opt_string_def assign_def)
  have d: "toCamelCase (JObject [(''total'', JNumber (Num 45)), (''page'', JNumber (Num 2)),
                                  (''limit'', JNumber (Num 20)), (''items'', JArray its)])
      = JObject [(''total'', JNumber (Num 45)), (''page'', JNumber (Num 2)),
                 (''limit'', JNumber (Num 20)), (''items'', JArray (map toCamelCase its))]"
    unfolding toCamelCase_results_shape by simp
  show ?thesis
    unfolding getResults_def rq assms
    by (simp add: getResults_settled_def d toCamelCase_idem del: toCamelCase.simps)
qed

text \<open>
  Two items as the server writes them, and as the client returns them.
\<close>

lemma camel_serverItems:
  "map toCamelCase serverItems =
     [JObject [(''analysisHistoryId'', JNumber (Num 7)), (''code'', JString ''AAPL''),
               (''evalStatus'', JString ''completed''), (''simulatedReturnPct'', JNumber (Num (5/2)))],
      JObject [(''analysisHistoryId'', JNumber (Num 8)), (''code'', JString ''AAPL''),
               (''evalStatus'', JString ''insufficient''), (''simulatedReturnPct'', JNull)]]"
  by (simp add: serverItems_def camelEntries_def camelFold_def camelKey_def assign_def upper_def)

theorem getResults_example_witness:
  "getResults exampleServer
      (Some \<lparr>p_code = Some ''AAPL'', p_page = Some (Num 2), p_limit = Some (Num 20)\<rparr>)
   = Inr \<lparr>r_total = JNumber (Num 45), r_page = JNumber (Num 2), r_limit = JNumber (Num 20),
          r_items = JArray
            [JObject [(''analysisHistoryId'', JNumber (Num 7)), (''code'', JString ''AAPL''),
               (''evalStatus'', JString ''completed''), (''simulatedReturnPct'', JNumber (Num (5/2)))],
             JObject [(''analysisHistoryId'', JNumber (Num 8)), (''code'', JString ''AAPL''),
               (''evalStatus'', JString ''insufficient''), (''simulatedReturnPct'', JNull)]]\<rparr>"
  using getResults_example [of exampleServer serverItems]
  by (simp add: exampleServer_def camel_serverItems)

section \<open>The page: facts and claims\<close>

lemma orUndefined_trim: "orUndefined (Some (trim text)) = activeFilter text"
  by (simp add: orUndefined_def activeFilter_def opt_string_def)

lemma orUndefined_activeFilter: "orUndefined (activeFilter text) = activeFilter text"
  by (simp add: orUndefined_def activeFilter_def opt_string_def)

lemma activeFilter_nonempty: "activeFilter text = Some s \<Longrightarrow> s \<noteq> []"
  by (auto simp: activeFilter_def split: if_splits)

lemma getResults_request_active:
  "getResults_request (Some \<lparr>p_code = activeFilter text, p_page = Some p, p_limit = Some (Num pageSize)\<rparr>)
     = resultsRequest p (activeFilter text)"
  by (auto simp: getResults_request_def resultsRequest_def pageSize_def opt_string_def assign_def
      activeFilter_def)

lemma fetchResults_start_active:
  "fetchResults_start (Some p) (activeFilter text) w =
     w\<lparr>isLoadingResults := True,
       sent := sent w @ [resultsRequest p (activeFilter text)],
       pending := pending w @ [(resultsRequest p (activeFilter text), AwaitResults)]\<rparr>"
  by (simp add: fetchResults_start_def Let_def orUndefined_activeFilter getResults_request_active)

lemma fetchPerformance_start_eq:
  "fetchPerformance_start c w =
     w\<lparr>isLoadingPerf := True,
       sent := sent w @ [getOverallPerformance_request],
       pending := pending w @ [(getOverallPerformance_request, AwaitOverall c)]\<rparr>"
  by (simp add: fetchPerformance_start_def Let_def)

lemma fetchResults_settled_frame:
  "sent (fetchResults_settled out w) = sent w"
  "pending (fetchResults_settled out w) = pending w"
  "overallPerf (fetchResults_settled out w) = overallPerf w"
  "stockPerf (fetchResults_settled out w) = stockPerf w"
  "codeFilter (fetchResults_settled out w) = codeFilter w"
  by (simp_all add: fetchResults_settled_def Let_def split: sum.splits)

lemma deliver_last:
  "deliver (length (pending w)) out (w\<lparr>pending := pending w @ [(rq, k)]\<rparr>)
     = resume k out w"
proof -
  have "w\<lparr>pending := pending w\<rparr> = w" by simp
  then show ?thesis by (simp add: deliver_def nth_append)
qed

lemma deliver_at:
  "length ps = i \<Longrightarrow> pending w = ps @ (rq, k) # rest \<Longrightarrow>
   deliver i out w = resume k out (w\<lparr>pending := ps @ rest\<rparr>)"
  by (simp add: deliver_def nth_append)

subsection \<open>Changing the page\<close>

text \<open>
  Claim C5. A page change to page \<open>p\<close> sends the request for page \<open>p\<close> of the
  result list with the code filter in force, and nothing else, neither at once nor when
  the answer arrives; the performance metrics and the filter text stay as they are.
\<close>

theorem page_change_fetches_results_only:
  "sent (handlePageChange p w) = sent w @ [resultsRequest p (activeFilter (codeFilter w))]
   \<and> pending (handlePageChange p w)
       = pending w @ [(resultsRequest p (activeFilter (codeFilter w)), AwaitResults)]
   \<and> overallPerf (handlePageChange p w) = overallPerf w
   \<and> stockPerf (handlePageChange p w) = stockPerf w
   \<and> codeFilter (handlePageChange p w) = codeFilter w
   \<and> sent (deliver (length (pending w)) out (handlePageChange p w)) = sent (handlePageChange p w)
   \<and> pending (deliver (length (pending w)) out (handlePageChange p w)) = pending w
   \<and> overallPerf (deliver (length (pending w)) out (handlePageChange p w)) = overallPerf w
   \<and> stockPerf (deliver (length (pending w)) out (handlePageChange p w)) = stockPerf w
   \<and> codeFilter (deliver (length (pending w)) out (handlePageChange p w)) = codeFilter w"
proof -
  let ?rq = "resultsRequest p (activeFilter (codeFilter w))"
  let ?w1 = "w\<lparr>isLoadingResults := True, sent := sent w @ [?rq]\<rparr>"
  have start: "handlePageChange p w = ?w1\<lparr>pending := pending ?w1 @ [(?rq, AwaitResults)]\<rparr>"
    by (simp add: handlePageChange_def orUndefined_trim fetchResults_start_active)
  have settled: "deliver (length (pending w)) out (handlePageChange p w) = fetchResults_settled out ?w1"
    unfolding start using deliver_last [of ?w1 out ?rq AwaitResults] by simp
  show ?thesis
    unfolding settled fetchResults_settled_frame
    by (simp add: start)
qed

text \<open>
  Page 3 with the filter text \<open>AAPL\<close> after a blank, the request failing.
\<close>

theorem page_change_fetches_results_only_witness:
  "sent (handlePageChange (Num 3) (typed '' AAPL''))
     = [GET ''/api/v1/backtest/results''
          (Some [(''page'', JNumber (Num 3)), (''limit'', JNumber (Num 20)),
                 (''code'', JString ''AAPL'')])]
   \<and> sent (deliver 0 (Inl networkError) (handlePageChange (Num 3) (typed '' AAPL'')))
     = sent (handlePageChange (Num 3) (typed '' AAPL''))
   \<and> codeFilter (deliver 0 (Inl networkError) (handlePageChange (Num 3) (typed '' AAPL'')))
     = '' AAPL''"
proof -
  have n: "length (pending (typed '' AAPL'')) = 0"
    by code_simp
  have e: "sent (typed '' AAPL'') @ [resultsRequest (Num 3) (activeFilter '' AAPL'')]
     = [GET ''/api/v1/backtest/results''
          (Some [(''page'', JNumber (Num 3)), (''limit'', JNumber (Num 20)),
                 (''code'', JString ''AAPL'')])]"
    by code_simp
  have f: "codeFilter (typed '' AAPL'') = '' AAPL''"
    by code_simp
  show ?thesis
    using page_change_fetches_results_only [of "Num 3" "typed '' AAPL''" "Inl networkError"]
    unfolding n e f by simp
qed

subsection \<open>Running a backtest\<close>

lemma handleRun_start_eq:
  "handleRun_start w =
     w\<lparr>isRunning := True, runResult := JNull, runError := JNull,
       sent := sent w @ [run_request (Some (noRunParams\<lparr>req_code := activeFilter (codeFilter w)\<rparr>))],
       pending := pending w @
         [(run_request (Some (noRunParams\<lparr>req_code := activeFilter (codeFilter w)\<rparr>)),
           AwaitRun (codeFilter w))]\<rparr>"
  by (simp add: handleRun_start_def Let_def orUndefined_trim)

lemma handleRun_settled_success:
  "run_settled out = Inr response \<Longrightarrow>
   handleRun_settled captured out w =
     w\<lparr>runResult := response, isLoadingResults := True, isLoadingPerf := True,
       sent := sent w @ [resultsRequest (Num 1) (activeFilter captured), getOverallPerformance_request],
       pending := pending w @
         [(resultsRequest (Num 1) (activeFilter captured), AwaitResults),
          (getOverallPerformance_request, AwaitOverall (activeFilter captured))],
       isRunning := False\<rparr>"
  by (simp add: handleRun_settled_def Let_def orUndefined_trim fetchResults_start_active
      fetchPerformance_start_eq)

lemma overall_settled_success:
  "getOverallPerformance_settled out = Inr overall \<Longrightarrow>
   fetchPerformance_overall_settled (activeFilter text) out w =
     (case activeFilter text of
        Some s \<Rightarrow>
          w\<lparr>overallPerf := overall,
            sent := sent w @ [getStockPerformance_request s],
            pending := pending w @ [(getStockPerformance_request s, AwaitStock)]\<rparr>
      | None \<Rightarrow> w\<lparr>overallPerf := overall, stockPerf := JNull, isLoadingPerf := False\<rparr>)"
  by (simp add: fetchPerformance_overall_settled_def Let_def orUndefined_activeFilter
      split: option.splits)

lemma overall_settled_failure:
  "getOverallPerformance_settled out = Inl err \<Longrightarrow>
   fetchPerformance_overall_settled code out w =
     w\<lparr>console := console w @ [(''Failed to fetch performance:'', err)], isLoadingPerf := False\<rparr>"
  by (simp add: fetchPerformance_overall_settled_def)

text \<open>
  Claim C3. When the run call of the run action completes successfully, the page sends
  the request for page 1 of the result list and the request for the overall performance,
  and, once that one has answered, the request for the performance of the code; all of
  them use the code filter that was in force when the run was started, whatever the
  filter text has become in the meantime (\<open>later\<close>).
\<close>

theorem run_success_refetches:
  assumes "run_settled out = Inr response"
    and "getOverallPerformance_settled out' = Inr overall"
  shows
  "pending (handleRun_start w)
     = pending w @ [(run_request (Some (noRunParams\<lparr>req_code := activeFilter (codeFilter w)\<rparr>)),
                     AwaitRun (codeFilter w))]
   \<and> sent (deliver (length (pending w)) out ((handleRun_start w)\<lparr>codeFilter := later\<rparr>))
     = sent (handleRun_start w)
       @ [resultsRequest (Num 1) (activeFilter (codeFilter w)), getOverallPerformance_request]
   \<and> pending (deliver (length (pending w)) out ((handleRun_start w)\<lparr>codeFilter := later\<rparr>))
     = pending w
       @ [(resultsRequest (Num 1) (activeFilter (codeFilter w)), AwaitResults),
          (getOverallPerformance_request, AwaitOverall (activeFilter (codeFilter w)))]
   \<and> sent (deliver (Suc (length (pending w))) out'
             (deliver (length (pending w)) out ((handleRun_start w)\<lparr>codeFilter := later\<rparr>)))
     = sent (handleRun_start w)
       @ [resultsRequest (Num 1) (activeFilter (codeFilter w)), getOverallPerformance_request]
       @ (case activeFilter (codeFilter w) of
            Some s \<Rightarrow> [getStockPerformance_request s]
          | None \<Rightarrow> [])"
proof -
  let ?rq = "run_request (Some (noRunParams\<lparr>req_code := activeFilter (codeFilter w)\<rparr>))"
  let ?c = "activeFilter (codeFilter w)"
  let ?w0 = "(handleRun_start w)\<lparr>codeFilter := later\<rparr>"
  have p0: "pending ?w0 = pending w @ (?rq, AwaitRun (codeFilter w)) # []"
    by (simp add: handleRun_start_eq)
  have d1: "deliver (length (pending w)) out ?w0
      = handleRun_settled (codeFilter w) out (?w0\<lparr>pending := pending w\<rparr>)"
    using deliver_at [OF refl p0, of out] by simp
  let ?w1 = "deliver (length (pending w)) out ?w0"
  have w1: "?w1 = (?w0\<lparr>pending := pending w\<rparr>)
     \<lparr>runResult := response, isLoadingResults := True, isLoadingPerf := True,
       sent := sent ?w0 @ [resultsRequest (Num 1) ?c, getOverallPerformance_request],
       pending := pending w @
         [(resultsRequest (Num 1) ?c, AwaitResults),
          (getOverallPerformance_request, AwaitOverall ?c)],
       isRunning := False\<rparr>"
    unfolding d1 handleRun_settled_success [OF assms(1)] by simp
  have p1: "pending ?w1 = (pending w @ [(resultsRequest (Num 1) ?c, AwaitResults)])
       @ (getOverallPerformance_request, AwaitOverall ?c) # []"
    unfolding w1 by simp
  have d2: "deliver (Suc (length (pending w))) out' ?w1
      = fetchPerformance_overall_settled ?c out'
          (?w1\<lparr>pending := pending w @ [(resultsRequest (Num 1) ?c, AwaitResults)]\<rparr>)"
    using deliver_at [OF _ p1, of "Suc (length (pending w))" out'] by simp
  have s2: "sent (deliver (Suc (length (pending w))) out' ?w1)
      = sent ?w1 @ (case ?c of Some s \<Rightarrow> [getStockPerformance_request s] | None \<Rightarrow> [])"
    unfolding d2 overall_settled_success [OF assms(2)] by (simp split: option.splits)
  have s1: "sent ?w1 = sent (handleRun_start w) @ [resultsRequest (Num 1) ?c, getOverallPerformance_request]"
    unfolding w1 by simp
  show ?thesis
    unfolding s2 s1 p1 by (simp add: handleRun_start_eq)
qed

text \<open>
  A run started with the filter \<open>AAPL\<close>; the text is \<open>MSFT\<close> when the run returns.
\<close>

theorem run_success_refetches_witness:
  "run_settled runOk =
     Inr (JObject [(''processed'', JNumber (Num 3)), (''saved'', JNumber (Num 3)),
                   (''completed'', JNumber (Num 2)), (''insufficient'', JNumber (Num 1)),
                   (''errors'', JNumber (Num 0))])
   \<and> getOverallPerformance_settled perfOk = Inr (JObject [(''winRatePct'', JNumber (Num 55))])
   \<and> sent (deliver (Suc 0) perfOk
             (deliver 0 runOk ((handleRun_start (typed ''AAPL ''))\<lparr>codeFilter := ''MSFT''\<rparr>)))
     = [POST ''/api/v1/backtest/run'' (JObject [(''code'', JString ''AAPL'')]),
        GET ''/api/v1/backtest/results''
          (Some [(''page'', JNumber (Num 1)), (''limit'', JNumber (Num 20)),
                 (''code'', JString ''AAPL'')]),
        GET ''/api/v1/backtest/performance'' None,
        GET ''/api/v1/backtest/performance/AAPL'' None]"
proof -
  have h1: "run_settled runOk =
     Inr (JObject [(''processed'', JNumber (Num 3)), (''saved'', JNumber (Num 3)),
                   (''completed'', JNumber (Num 2)), (''insufficient'', JNumber (Num 1)),
                   (''errors'', JNumber (Num 0))])"
    by code_simp
  have h2: "getOverallPerformance_settled perfOk = Inr (JObject [(''winRatePct'', JNumber (Num 55))])"
    by code_simp
  have n: "length (pending (typed ''AAPL '')) = 0"
    by code_simp
  have e: "sent (handleRun_start (typed ''AAPL ''))
       @ [resultsRequest (Num 1) (activeFilter (codeFilter (typed ''AAPL ''))),
          getOverallPerformance_request]
       @ (case activeFilter (codeFilter (typed ''AAPL '')) of
            Some s \<Rightarrow> [getStockPerformance_request s]
          | None \<Rightarrow> [])
     = [POST ''/api/v1/backtest/run'' (JObject [(''code'', JString ''AAPL'')]),
        GET ''/api/v1/backtest/results''
          (Some [(''page'', JNumber (Num 1)), (''limit'', JNumber (Num 20)),
                 (''code'', JString ''AAPL'')]),
        GET ''/api/v1/backtest/performance'' None,
        GET ''/api/v1/backtest/performance/AAPL'' None]"
    by code_simp
  show ?thesis
    using h1 h2 run_success_refetches [OF h1 h2, of "typed ''AAPL ''" "''MSFT''"]
    unfolding n e by simp
qed

subsection \<open>Failed fetches\<close>

lemma results_settled_failure:
  "getResults_settled out = Inl err \<Longrightarrow>
   fetchResults_settled out w =
     w\<lparr>console := console w @ [(''Failed to fetch backtest results:'', err)],
       isLoadingResults := False\<rparr>"
  by (simp add: fetchResults_settled_def)

lemma stock_settled_failure:
  "getStockPerformance_settled out = Inl err \<Longrightarrow>
   fetchPerformance_stock_settled out w =
     w\<lparr>console := console w @ [(''Failed to fetch performance:'', err)],
       isLoadingPerf := False\<rparr>"
  by (simp add: fetchPerformance_stock_settled_def)

lemma overall_settled_then_stock:
  "getOverallPerformance_settled out = Inr overall \<Longrightarrow> orUndefined code = Some s \<Longrightarrow>
   fetchPerformance_overall_settled code out w =
     w\<lparr>overallPerf := overall,
       sent := sent w @ [getStockPerformance_request s],
       pending := pending w @ [(getStockPerformance_request s, AwaitStock)]\<rparr>"
  by (simp add: fetchPerformance_overall_settled_def Let_def)

text \<open>
  Claim C4, as amended. A failed request of the result list or of the performance is
  caught and logged, and the handler ends normally. The failed request writes nothing:
  results, total count and current page stay when the result list fails, both performance
  cells stay when the overall request fails, and the per-code cell stays when the per-code
  request fails. In that last case the overall cell holds the overall metrics that the
  same fetch has just stored.
\<close>

theorem fetch_failure_is_logged:
  "(getResults_settled out = Inl err \<longrightarrow>
      fetchResults_settled out w =
        w\<lparr>console := console w @ [(''Failed to fetch backtest results:'', err)],
          isLoadingResults := False\<rparr>)
   \<and> (getOverallPerformance_settled out = Inl err \<longrightarrow>
      fetchPerformance_overall_settled code out w =
        w\<lparr>console := console w @ [(''Failed to fetch performance:'', err)],
          isLoadingPerf := False\<rparr>)
   \<and> (getStockPerformance_settled out = Inl err \<longrightarrow>
      fetchPerformance_stock_settled out w =
        w\<lparr>console := console w @ [(''Failed to fetch performance:'', err)],
          isLoadingPerf := False\<rparr>)
   \<and> (getOverallPerformance_settled out1 = Inr overall \<and> orUndefined code = Some s \<and>
       getStockPerformance_settled out = Inl err \<longrightarrow>
      overallPerf (fetchPerformance_stock_settled out
                     (fetchPerformance_overall_settled code out1 w)) = overall
      \<and> stockPerf (fetchPerformance_stock_settled out
                     (fetchPerformance_overall_settled code out1 w)) = stockPerf w
      \<and> console (fetchPerformance_stock_settled out
                     (fetchPerformance_overall_settled code out1 w))
          = console w @ [(''Failed to fetch performance:'', err)])"
  by (simp add: results_settled_failure overall_settled_failure stock_settled_failure
      overall_settled_then_stock)

text \<open>
  The claim as it was stated keeps the performance metrics at their prior value for
  every failed performance fetch. With the overall request answered and the request for
  \<open>AAPL\<close> failing, the fetch fails and is logged, and the overall metrics have changed.
\<close>

theorem performance_failure_counterexample:
  "getStockPerformance stockDown ''AAPL'' = Inl (failure 500)
   \<and> overallPerf (settle stockDown (fetchPerformance_start (Some ''AAPL'') initial))
       = JObject [(''winRatePct'', JNumber (Num 55))]
   \<and> overallPerf initial = JNull
   \<and> console (settle stockDown (fetchPerformance_start (Some ''AAPL'') initial))
       = [(''Failed to fetch performance:'', failure 500)]"
  by code_simp

text \<open>
  A result list without a body, an overall request answered with 500, and a per-code
  request without an answer.
\<close>

theorem fetch_failure_is_logged_witness:
  "getResults_settled (Inr \<lparr>data = JNull\<rparr>) = Inl (TypeError ''Cannot read properties of null'')
   \<and> fetchResults_settled (Inr \<lparr>data = JNull\<rparr>) (typed ''AAPL'') =
        (typed ''AAPL'')
          \<lparr>console := [(''Failed to fetch backtest results:'',
                        TypeError ''Cannot read properties of null'')],
            isLoadingResults := False\<rparr>
   \<and> getOverallPerformance_settled (Inl (failure 500)) = Inl (failure 500)
   \<and> fetchPerformance_overall_settled (Some ''AAPL'') (Inl (failure 500)) (typed ''AAPL'') =
        (typed ''AAPL'')
          \<lparr>console := [(''Failed to fetch performance:'', failure 500)],
            isLoadingPerf := False\<rparr>
   \<and> getStockPerformance_settled (Inl networkError) = Inl networkError
   \<and> fetchPerformance_stock_settled (Inl networkError) (typed ''AAPL'') =
        (typed ''AAPL'')
          \<lparr>console := [(''Failed to fetch performance:'', networkError)],
            isLoadingPerf := False\<rparr>
   \<and> overallPerf (fetchPerformance_stock_settled (Inl networkError)
                     (fetchPerformance_overall_settled (Some ''AAPL'') perfOk (typed ''AAPL'')))
       = JObject [(''winRatePct'', JNumber (Num 55))]"
proof -
  have a: "getResults_settled (Inr \<lparr>data = JNull\<rparr>) = Inl (TypeError ''Cannot read properties of null'')"
    by (simp add: getResults_settled_def TypeError_def)
  have b: "getOverallPerformance_settled (Inl (failure 500)) = Inl (failure 500)"
    by (simp add: getOverallPerformance_settled_def failure_def opt_chain_def)
  have c: "getStockPerformance_settled (Inl networkError) = Inl networkError"
    by (simp add: getStockPerformance_settled_def networkError_def)
  have d: "getOverallPerformance_settled perfOk = Inr (JObject [(''winRatePct'', JNumber (Num 55))])"
    by (simp add: getOverallPerformance_settled_def perfOk_def camelEntries_def camelFold_def
        camelKey_def assign_def upper_def)
  have e: "orUndefined (Some ''AAPL'') = Some ''AAPL''"
    by (simp add: orUndefined_def opt_string_def)
  have f: "console (typed ''AAPL'') = []"
    by (simp add: typed_def initial_def)
  show ?thesis
    using a b c d e f
      fetch_failure_is_logged [of "Inr \<lparr>data = JNull\<rparr>"
        "TypeError ''Cannot read properties of null''" "typed ''AAPL''"]
      fetch_failure_is_logged [of "Inl (failure 500)" "failure 500" "typed ''AAPL''" "Some ''AAPL''"]
      fetch_failure_is_logged [of "Inl networkError" networkError "typed ''AAPL''" "Some ''AAPL''"
        perfOk "JObject [(''winRatePct'', JNumber (Num 55))]" "''AAPL''"]
    by simp
qed

subsection \<open>Submitting a filter\<close>

lemma settle_nil: "pending w = [] \<Longrightarrow> settle http w = w"
  by (subst settle.simps) simp

lemma settle_cons:
  "pending w = (rq, k) # rest \<Longrightarrow>
   settle http w = settle http (resume k (http rq) (w\<lparr>pending := rest\<rparr>))"
  by (subst settle.simps) simp

lemma stock_settled_frame:
  "sent (fetchPerformance_stock_settled out w) = sent w"
  "pending (fetchPerformance_stock_settled out w) = pending w"
  "overallPerf (fetchPerformance_stock_settled out w) = overallPerf w"
  by (simp_all add: fetchPerformance_stock_settled_def Let_def split: sum.splits)

lemma handleFilter_eq:
  "handleFilter w =
     w\<lparr>currentPage := JNumber (Num 1), isLoadingResults := True, isLoadingPerf := True,
       sent := sent w @ [resultsRequest (Num 1) (activeFilter (codeFilter w)),
                         getOverallPerformance_request],
       pending := pending w @
         [(resultsRequest (Num 1) (activeFilter (codeFilter w)), AwaitResults),
          (getOverallPerformance_request, AwaitOverall (activeFilter (codeFilter w)))]\<rparr>"
  by (simp add: handleFilter_def Let_def orUndefined_trim fetchResults_start_active
      fetchPerformance_start_eq)

lemma overall_settled_sent:
  "sent (fetchPerformance_overall_settled (activeFilter text) out w) =
     sent w @ (case (activeFilter text, getOverallPerformance_settled out) of
                 (Some s, Inr overall) \<Rightarrow> [getStockPerformance_request s]
               | _ \<Rightarrow> [])"
  by (cases "getOverallPerformance_settled out")
     (simp_all add: overall_settled_failure overall_settled_success split: option.splits)

lemma overall_settled_pending:
  "pending (fetchPerformance_overall_settled (activeFilter text) out w) =
     pending w @ (case (activeFilter text, getOverallPerformance_settled out) of
                 (Some s, Inr overall) \<Rightarrow> [(getStockPerformance_request s, AwaitStock)]
               | _ \<Rightarrow> [])"
  by (cases "getOverallPerformance_settled out")
     (simp_all add: overall_settled_failure overall_settled_success split: option.splits)

lemma settle_performance:
  assumes "pending w = [(getOverallPerformance_request, AwaitOverall (activeFilter text))]"
  shows "sent (settle http w) =
     sent w @ (case (activeFilter text, getOverallPerformance http) of
                 (Some s, Inr overall) \<Rightarrow> [getStockPerformance_request s]
               | _ \<Rightarrow> [])"
proof -
  let ?w1 = "fetchPerformance_overall_settled (activeFilter text)
               (http getOverallPerformance_request) (w\<lparr>pending := []\<rparr>)"
  have step: "settle http w = settle http ?w1"
    using settle_cons [OF assms, of http] by simp
  have s1: "sent ?w1 = sent w @ (case (activeFilter text, getOverallPerformance http) of
                 (Some s, Inr overall) \<Rightarrow> [getStockPerformance_request s]
               | _ \<Rightarrow> [])"
    by (simp add: overall_settled_sent getOverallPerformance_def)
  have p1: "pending ?w1 = (case (activeFilter text, getOverallPerformance http) of
                 (Some s, Inr overall) \<Rightarrow> [(getStockPerformance_request s, AwaitStock)]
               | _ \<Rightarrow> [])"
    by (simp add: overall_settled_pending getOverallPerformance_def)
  show ?thesis
  proof (cases "pending ?w1")
    case Nil
    then show ?thesis unfolding step by (simp add: settle_nil s1)
  next
    case (Cons rk rest)
    then have p: "pending ?w1 = [(fst rk, AwaitStock)]"
      using p1 by (auto split: option.splits sum.splits)
    have "settle http ?w1
        = settle http (fetchPerformance_stock_settled (http (fst rk)) (?w1\<lparr>pending := []\<rparr>))"
      using settle_cons [OF p, of http] by simp
    also have "\<dots> = fetchPerformance_stock_settled (http (fst rk)) (?w1\<lparr>pending := []\<rparr>)"
      by (rule settle_nil) (simp add: stock_settled_frame)
    finally show ?thesis
      unfolding step by (simp add: stock_settled_frame s1)
  qed
qed

text \<open>
  Claim C8, as amended. A filter submission sets the current page to 1 and sends the
  request for page 1 of the result list with the submitted filter and the request for the
  overall performance. The request for the performance of the code is sent if and only if
  the trimmed filter is not empty and the overall call has not failed (an overall 404 is
  no failure).
\<close>

theorem filter_refetches:
  "currentPage (handleFilter w) = JNumber (Num 1)
   \<and> sent (handleFilter w)
     = sent w @ [resultsRequest (Num 1) (activeFilter (codeFilter w)), getOverallPerformance_request]
   \<and> pending (handleFilter w)
     = pending w @ [(resultsRequest (Num 1) (activeFilter (codeFilter w)), AwaitResults),
                    (getOverallPerformance_request, AwaitOverall (activeFilter (codeFilter w)))]
   \<and> sent (deliver (Suc (length (pending w))) out (handleFilter w))
     = sent (handleFilter w)
       @ (case (activeFilter (codeFilter w), getOverallPerformance_settled out) of
            (Some s, Inr overall) \<Rightarrow> [getStockPerformance_request s]
          | _ \<Rightarrow> [])
   \<and> (pending w = [] \<longrightarrow>
        sent (settle http (handleFilter w))
        = sent w @ [resultsRequest (Num 1) (activeFilter (codeFilter w)), getOverallPerformance_request]
          @ (case (activeFilter (codeFilter w), getOverallPerformance http) of
               (Some s, Inr overall) \<Rightarrow> [getStockPerformance_request s]
             | _ \<Rightarrow> []))"
proof -
  let ?c = "activeFilter (codeFilter w)"
  let ?r = "resultsRequest (Num 1) ?c"
  let ?o = "getOverallPerformance_request"
  have p: "pending (handleFilter w) = (pending w @ [(?r, AwaitResults)]) @ (?o, AwaitOverall ?c) # []"
    by (simp add: handleFilter_eq)
  have d: "deliver (Suc (length (pending w))) out (handleFilter w)
      = fetchPerformance_overall_settled ?c out
          ((handleFilter w)\<lparr>pending := pending w @ [(?r, AwaitResults)]\<rparr>)"
    using deliver_at [OF _ p, of "Suc (length (pending w))" out] by simp
  have whole: "sent (settle http (handleFilter w))
        = sent w @ [?r, ?o]
          @ (case (?c, getOverallPerformance http) of
               (Some s, Inr overall) \<Rightarrow> [getStockPerformance_request s]
             | _ \<Rightarrow> [])" if empty: "pending w = []"
  proof -
    let ?w1 = "fetchResults_settled (http ?r) ((handleFilter w)\<lparr>pending := [(?o, AwaitOverall ?c)]\<rparr>)"
    have p0: "pending (handleFilter w) = (?r, AwaitResults) # [(?o, AwaitOverall ?c)]"
      using p empty by simp
    have "settle http (handleFilter w) = settle http ?w1"
      using settle_cons [OF p0, of http] by simp
    moreover have "pending ?w1 = [(?o, AwaitOverall ?c)]"
      by (simp add: fetchResults_settled_frame)
    ultimately have "sent (settle http (handleFilter w)) = sent ?w1
        @ (case (?c, getOverallPerformance http) of
               (Some s, Inr overall) \<Rightarrow> [getStockPerformance_request s]
             | _ \<Rightarrow> [])"
      using settle_performance [of ?w1 "codeFilter w" http] by simp
    then show ?thesis
      by (simp add: fetchResults_settled_frame handleFilter_eq)
  qed
  show ?thesis
    unfolding d overall_settled_sent
    using whole by (simp add: handleFilter_eq)
qed

text \<open>
  The claim as it was stated fetches the per-code metrics whenever a code is set. With
  the filter \<open>AAPL\<close> and the overall request answered with 500, no per-code request
  is sent.
\<close>

theorem filter_counterexample:
  "activeFilter (codeFilter (typed ''AAPL'')) = Some ''AAPL''
   \<and> getStockPerformance_request ''AAPL''
       \<notin> set (sent (settle overallDown (handleFilter (typed ''AAPL''))))
   \<and> sent (settle overallDown (handleFilter (typed ''AAPL'')))
       = [resultsRequest (Num 1) (Some ''AAPL''), getOverallPerformance_request]"
  by code_simp

text \<open>
  The filter \<open>AAPL\<close> over a server without performance data, and over one with.
\<close>

theorem filter_refetches_witness:
  "pending (typed ''AAPL'') = []
   \<and> sent (settle exampleServer (handleFilter (typed ''AAPL'')))
     = [GET ''/api/v1/backtest/results''
          (Some [(''page'', JNumber (Num 1)), (''limit'', JNumber (Num 20)),
                 (''code'', JString ''AAPL'')]),
        GET ''/api/v1/backtest/performance'' None]
   \<and> sent (settle (\<lambda>rq. perfOk) (handleFilter (typed ''AAPL'')))
     = [GET ''/api/v1/backtest/results''
          (Some [(''page'', JNumber (Num 1)), (''limit'', JNumber (Num 20)),
                 (''code'', JString ''AAPL'')]),
        GET ''/api/v1/backtest/performance'' None,
        GET ''/api/v1/backtest/performance/AAPL'' None]"
proof -
  have p: "pending (typed ''AAPL'') = []"
    by code_simp
  note down = filter_refetches [of "typed ''AAPL''" perfOk exampleServer,
      THEN conjunct2, THEN conjunct2, THEN conjunct2, THEN conjunct2, THEN mp, OF p]
  note up = filter_refetches [of "typed ''AAPL''" perfOk "\<lambda>rq. perfOk",
      THEN conjunct2, THEN conjunct2, THEN conjunct2, THEN conjunct2, THEN mp, OF p]
  have e_down: "sent (typed ''AAPL'')
      @ [resultsRequest (Num 1) (activeFilter (codeFilter (typed ''AAPL''))),
         getOverallPerformance_request]
      @ (case (activeFilter (codeFilter (typed ''AAPL'')), getOverallPerformance exampleServer) of
           (Some s, Inr overall) \<Rightarrow> [getStockPerformance_request s]
         | _ \<Rightarrow> [])
     = [GET ''/api/v1/backtest/results''
          (Some [(''page'', JNumber (Num 1)), (''limit'', JNumber (Num 20)),
                 (''code'', JString ''AAPL'')]),
        GET ''/api/v1/backtest/performance'' None]"
    by code_simp
  have e_up: "sent (typed ''AAPL'')
      @ [resultsRequest (Num 1) (activeFilter (codeFilter (typed ''AAPL''))),
         getOverallPerformance_request]
      @ (case (activeFilter (codeFilter (typed ''AAPL'')), getOverallPerformance (\<lambda>rq. perfOk)) of
           (Some s, Inr overall) \<Rightarrow> [getStockPerformance_request s]
         | _ \<Rightarrow> [])
     = [GET ''/api/v1/backtest/results''
          (Some [(''page'', JNumber (Num 1)), (''limit'', JNumber (Num 20)),
                 (''code'', JString ''AAPL'')]),
        GET ''/api/v1/backtest/performance'' None,
        GET ''/api/v1/backtest/performance/AAPL'' None]"
    by code_simp
  show ?thesis
    by (intro conjI) (rule p, rule trans [OF down e_down], rule trans [OF up e_up])
qed

end
